theory Spec2Isabelle
  imports Main "HOL-Library.AList" "HOL-Library.Sublist"
begin

section \<open>The \<open>path\<close> module (POSIX flavour)\<close>

text \<open>
  \<^verbatim>\<open>files.js\<close> calls \<^verbatim>\<open>path.join\<close>, \<^verbatim>\<open>path.basename\<close> and \<^verbatim>\<open>path.dirname\<close> of
  Node's \<^verbatim>\<open>path\<close> module and tests for the separator \<^verbatim>\<open>'/'\<close>, so the POSIX variant of
  the module is the one modelled. A path is a \<open>string\<close>; the functions are pure.
\<close>

abbreviation slash :: char where
  "slash \<equiv> CHR ''/''"

text \<open>\<^verbatim>\<open>String.prototype.lastIndexOf\<close> for a one-character needle: the index of the last
  occurrence, \<open>-1\<close> when there is none.\<close>

definition lastIndexOf :: "string \<Rightarrow> char \<Rightarrow> int" where
  "lastIndexOf s c =
     (if c \<in> set s
      then int (length s) - 1 - int (length (takeWhile (\<lambda>x. x \<noteq> c) (rev s)))
      else - 1)"

text \<open>Splitting at every separator: \<open>''a//b/''\<close> gives \<open>[''a'', [], ''b'', []]\<close>.\<close>

fun segments :: "string \<Rightarrow> string list" where
  "segments [] = [[]]"
| "segments (c # cs) =
     (if c = slash then [] # segments cs
      else (case segments cs of
              [] \<Rightarrow> [[c]]
            | seg # segs \<Rightarrow> (c # seg) # segs))"

fun unsegments :: "string list \<Rightarrow> string" where
  "unsegments [] = []"
| "unsegments [seg] = seg"
| "unsegments (seg # segs) = seg @ slash # unsegments segs"

text \<open>\<^verbatim>\<open>normalizeString\<close> of Node's \<^verbatim>\<open>path\<close>, on segments: empty and \<open>.\<close> segments are
  dropped, \<open>..\<close> removes the segment before it unless there is none or it is itself
  \<open>..\<close> (then it is kept when the path is relative, dropped when it is absolute).\<close>

fun normalizeString :: "bool \<Rightarrow> string list \<Rightarrow> string list \<Rightarrow> string list" where
  "normalizeString allowAboveRoot res [] = res"
| "normalizeString allowAboveRoot res (seg # segs) =
     (if seg = [] \<or> seg = ''.'' then normalizeString allowAboveRoot res segs
      else if seg = ''..'' then
        (if res \<noteq> [] \<and> last res \<noteq> ''..''
         then normalizeString allowAboveRoot (butlast res) segs
         else if allowAboveRoot
         then normalizeString allowAboveRoot (res @ [''..'']) segs
         else normalizeString allowAboveRoot res segs)
      else normalizeString allowAboveRoot (res @ [seg]) segs)"

definition path_normalize :: "string \<Rightarrow> string" where
  "path_normalize p =
     (if p = [] then ''.''
      else
        let isAbsolute = (hd p = slash);
            trailingSeparator = (last p = slash);
            path = unsegments (normalizeString (\<not> isAbsolute) [] (segments p))
        in if path = []
           then (if isAbsolute then ''/'' else if trailingSeparator then ''./'' else ''.'')
           else (if isAbsolute then ''/'' else []) @ path
                @ (if trailingSeparator then ''/'' else []))"

text \<open>\<^verbatim>\<open>path.join(a, b)\<close>: the non-empty arguments joined by a separator, then normalised;
  \<open>.\<close> when nothing is left.\<close>

definition path_join :: "string \<Rightarrow> string \<Rightarrow> string" where
  "path_join a b =
     (let joined = (if a = [] then b else if b = [] then a else a @ slash # b)
      in if joined = [] then ''.'' else path_normalize joined)"

text \<open>\<^verbatim>\<open>path.basename(p)\<close>: trailing separators are skipped, then the characters back to
  the separator before them are the result.\<close>

definition path_basename :: "string \<Rightarrow> string" where
  "path_basename p =
     rev (takeWhile (\<lambda>c. c \<noteq> slash) (dropWhile (\<lambda>c. c = slash) (rev p)))"

text \<open>\<^verbatim>\<open>path.dirname(p)\<close>: the scan runs from the end down to index 1, skips trailing
  separators and the last segment, and cuts at the separator it meets.\<close>

definition path_dirname :: "string \<Rightarrow> string" where
  "path_dirname p =
     (case p of
        [] \<Rightarrow> ''.''
      | c # rest \<Rightarrow>
          (case dropWhile (\<lambda>x. x \<noteq> slash) (dropWhile (\<lambda>x. x = slash) (rev rest)) of
             [] \<Rightarrow> (if c = slash then ''/'' else ''.'')
           | _ # front \<Rightarrow>
               (if c = slash \<and> front = [] then ''//'' else c # rev front)))"

section \<open>Destination of a move or a copy\<close>

text \<open>
  \<^verbatim>\<open>targetDirectoryWithTrailingSlash (pDestination, pFilePath)\<close>, lines 48 to 60:
  \<^verbatim>\<open>pDestination.lastIndexOf('/') === pDestination.length - 1
     ? path.join(pDestination, path.basename(pFilePath)) : pDestination\<close>.
\<close>

definition targetDirectoryWithTrailingSlash :: "string \<Rightarrow> string \<Rightarrow> string" where
  "targetDirectoryWithTrailingSlash pDestination pFilePath =
     (if lastIndexOf pDestination slash = int (length pDestination) - 1
      then path_join pDestination (path_basename pFilePath)
      else pDestination)"

section \<open>The file system as the class sees it\<close>

text \<open>
  The class reaches the disk only through eight calls of \<^verbatim>\<open>fs\<close> and \<^verbatim>\<open>fs-extra\<close>. They
  are external to the repository, so the methods take them as a parameter: a record of
  functions over a state \<open>'s\<close> of the disk. A call that writes returns the new state
  and the exception it raised, if any (the state is returned also then: a failed call
  may have written part of its work). \<^verbatim>\<open>existsSync\<close> never raises.
\<close>

datatype error =
    ENOENT | EEXIST | EISDIR | ENOTDIR | EINVAL | EACCES | ENOSPC
  | TypeError | SyntaxError

record 's io =
  existsSync :: "'s \<Rightarrow> string \<Rightarrow> bool"
  readFileSync :: "'s \<Rightarrow> string \<Rightarrow> error + string"
  writeFileSync :: "'s \<Rightarrow> string \<Rightarrow> string \<Rightarrow> error option \<times> 's"
  appendFileSync :: "'s \<Rightarrow> string \<Rightarrow> string \<Rightarrow> error option \<times> 's"
  ensureDirSync :: "'s \<Rightarrow> string \<Rightarrow> error option \<times> 's"
  removeSync :: "'s \<Rightarrow> string \<Rightarrow> error option \<times> 's"
  moveSync :: "'s \<Rightarrow> string \<Rightarrow> string \<Rightarrow> error option \<times> 's"
  copySync :: "'s \<Rightarrow> string \<Rightarrow> string \<Rightarrow> error option \<times> 's"

section \<open>The class \<open>Files\<close>\<close>

text \<open>
  An instance holds \<^verbatim>\<open>this.glob\<close> (the pattern) and \<^verbatim>\<open>this.files\<close> (the working set).
  A method call is a function of the instance and the disk; it gives back how the call
  completed (a returned value or a thrown exception), the instance and the disk as the
  call left them. \<^verbatim>\<open>colorLog\<close> only prints and is left out.
\<close>

record Files =
  glob :: string
  files :: "string list"

datatype 'a completion = Return 'a | Throw error

record ('a, 's) run =
  outcome :: "'a completion"
  self :: Files
  world :: 's

text \<open>\<^verbatim>\<open>static new (pPath)\<close>: the constructor with \<^verbatim>\<open>pNew = true\<close> and both filters off
  stores the pattern and an empty array.\<close>

definition Files_new :: "string \<Rightarrow> Files" where
  "Files_new pPath = \<lparr>glob = pPath, files = []\<rparr>"

text \<open>\<^verbatim>\<open>exists ()\<close>, line 163.\<close>

definition exists :: "Files \<Rightarrow> bool" where
  "exists this = (length (files this) > 0)"

text \<open>\<^verbatim>\<open>this.files.map(cb)\<close> with a callback that acts on the disk and whose results are
  dropped: the entries in stored order, stopping at the first exception.\<close>

fun each :: "(string \<Rightarrow> 's \<Rightarrow> error option \<times> 's) \<Rightarrow> string list \<Rightarrow> 's \<Rightarrow> error option \<times> 's" where
  "each cb [] s = (None, s)"
| "each cb (file # rest) s =
     (case cb file s of
        (Some e, s') \<Rightarrow> (Some e, s')
      | (None, s') \<Rightarrow> each cb rest s')"

text \<open>\<^verbatim>\<open>delete ()\<close>, lines 180 to 196, and its alias \<^verbatim>\<open>remove ()\<close>.\<close>

definition delete :: "'s io \<Rightarrow> Files \<Rightarrow> 's \<Rightarrow> (nat, 's) run" where
  "delete fse this s =
     (case each (\<lambda>file s. removeSync fse s file) (files this) s of
        (Some e, s') \<Rightarrow> \<lparr>outcome = Throw e, self = this, world = s'\<rparr>
      | (None, s') \<Rightarrow>
          (let totalFiles = length (files this)
           in \<lparr>outcome = Return totalFiles, self = this\<lparr>files := []\<rparr>, world = s'\<rparr>))"

definition remove :: "'s io \<Rightarrow> Files \<Rightarrow> 's \<Rightarrow> (nat, 's) run" where
  "remove fse this s = delete fse this s"

text \<open>\<^verbatim>\<open>moveTo (pDestination)\<close>, lines 215 to 239. The callback also pushes each
  destination on \<^verbatim>\<open>newFiles\<close>, which the loop carries.\<close>

fun moveTo_loop :: "'s io \<Rightarrow> string \<Rightarrow> string list \<Rightarrow> string list \<Rightarrow> 's \<Rightarrow> error option \<times> string list \<times> 's" where
  "moveTo_loop fse pDestination [] newFiles s = (None, newFiles, s)"
| "moveTo_loop fse pDestination (file # rest) newFiles s =
     (let destination = targetDirectoryWithTrailingSlash pDestination file
      in case moveSync fse s file destination of
           (Some e, s') \<Rightarrow> (Some e, newFiles, s')
         | (None, s') \<Rightarrow> moveTo_loop fse pDestination rest (newFiles @ [destination]) s')"

definition moveTo :: "'s io \<Rightarrow> string \<Rightarrow> Files \<Rightarrow> 's \<Rightarrow> (nat, 's) run" where
  "moveTo fse pDestination this s =
     (case moveTo_loop fse pDestination (files this) [] s of
        (Some e, newFiles, s') \<Rightarrow> \<lparr>outcome = Throw e, self = this, world = s'\<rparr>
      | (None, newFiles, s') \<Rightarrow>
          (let totalFiles = length (files this)
           in \<lparr>outcome = Return totalFiles, self = this\<lparr>files := newFiles\<rparr>, world = s'\<rparr>))"

text \<open>\<^verbatim>\<open>copyTo (pDestination)\<close>, lines 248 to 266.\<close>

definition copyTo :: "'s io \<Rightarrow> string \<Rightarrow> Files \<Rightarrow> 's \<Rightarrow> (nat, 's) run" where
  "copyTo fse pDestination this s =
     (case each (\<lambda>file s. copySync fse s file (targetDirectoryWithTrailingSlash pDestination file))
             (files this) s of
        (Some e, s') \<Rightarrow> \<lparr>outcome = Throw e, self = this, world = s'\<rparr>
      | (None, s') \<Rightarrow> \<lparr>outcome = Return (length (files this)), self = this, world = s'\<rparr>)"

text \<open>\<^verbatim>\<open>read (pEncoding)\<close>, lines 275 to 283; \<open>None\<close> is \<^verbatim>\<open>null\<close>. The encoding is the
  default one and a file's content is the string that was written.\<close>

definition read :: "'s io \<Rightarrow> Files \<Rightarrow> 's \<Rightarrow> (string option, 's) run" where
  "read fs this s =
     (if existsSync fs s (glob this)
      then (case readFileSync fs s (glob this) of
              Inl e \<Rightarrow> \<lparr>outcome = Throw e, self = this, world = s\<rparr>
            | Inr content \<Rightarrow> \<lparr>outcome = Return (Some content), self = this, world = s\<rparr>)
      else \<lparr>outcome = Return None, self = this, world = s\<rparr>)"

text \<open>\<^verbatim>\<open>write (pContent, pEncoding)\<close>, lines 291 to 298.\<close>

definition files_write :: "'s io \<Rightarrow> string \<Rightarrow> Files \<Rightarrow> 's \<Rightarrow> (unit, 's) run" where
  "files_write fs pContent this s =
     (case ensureDirSync fs s (path_dirname (glob this)) of
        (Some e, s1) \<Rightarrow> \<lparr>outcome = Throw e, self = this, world = s1\<rparr>
      | (None, s1) \<Rightarrow>
          (case writeFileSync fs s1 (glob this) pContent of
             (Some e, s2) \<Rightarrow> \<lparr>outcome = Throw e, self = this, world = s2\<rparr>
           | (None, s2) \<Rightarrow> \<lparr>outcome = Return (), self = this, world = s2\<rparr>))"

text \<open>\<^verbatim>\<open>append (pContent, pNewLine, pEncoding)\<close>, lines 307 to 320.\<close>

definition files_append :: "'s io \<Rightarrow> string \<Rightarrow> bool \<Rightarrow> Files \<Rightarrow> 's \<Rightarrow> (unit, 's) run" where
  "files_append fs pContent pNewLine this s =
     (case ensureDirSync fs s (path_dirname (glob this)) of
        (Some e, s1) \<Rightarrow> \<lparr>outcome = Throw e, self = this, world = s1\<rparr>
      | (None, s1) \<Rightarrow>
          (let before = (if \<not> existsSync fs s1 (glob this) \<or> \<not> pNewLine
                         then [] else [CHR 0x0A])
           in case appendFileSync fs s1 (glob this) (before @ pContent) of
                (Some e, s2) \<Rightarrow> \<lparr>outcome = Throw e, self = this, world = s2\<rparr>
              | (None, s2) \<Rightarrow> \<lparr>outcome = Return (), self = this, world = s2\<rparr>))"

text \<open>\<^verbatim>\<open>createFolders ()\<close>, lines 326 to 341, and its alias \<^verbatim>\<open>ensureFolders ()\<close>.\<close>

definition createFolders :: "'s io \<Rightarrow> Files \<Rightarrow> 's \<Rightarrow> (unit, 's) run" where
  "createFolders fse this s =
     (case (if length (files this) = 0
            then ensureDirSync fse s (glob this)
            else each (\<lambda>file s. ensureDirSync fse s file) (files this) s) of
        (Some e, s') \<Rightarrow> \<lparr>outcome = Throw e, self = this, world = s'\<rparr>
      | (None, s') \<Rightarrow> \<lparr>outcome = Return (), self = this, world = s'\<rparr>)"

definition ensureFolders :: "'s io \<Rightarrow> Files \<Rightarrow> 's \<Rightarrow> (unit, 's) run" where
  "ensureFolders fse this s = createFolders fse this s"

text \<open>\<^verbatim>\<open>alter (pHandler)\<close>, lines 358 to 365: the handler is a function of what
  \<^verbatim>\<open>read\<close> returned.\<close>

definition alter :: "'s io \<Rightarrow> (string option \<Rightarrow> string) \<Rightarrow> Files \<Rightarrow> 's \<Rightarrow> (unit, 's) run" where
  "alter fs pHandler this s =
     (let r = read fs this s
      in case outcome r of
           Throw e \<Rightarrow> \<lparr>outcome = Throw e, self = self r, world = world r\<rparr>
         | Return content \<Rightarrow> files_write fs (pHandler content) (self r) (world r))"

text \<open>\<^verbatim>\<open>alterJSON (pHandler, pSpaces)\<close>, lines 372 to 385. \<^verbatim>\<open>JSON.parse\<close> and
  \<^verbatim>\<open>JSON.stringify\<close> are parameters over a type \<open>'j\<close> of JSON values;
  \<^verbatim>\<open>null.toString()\<close> raises a \<^verbatim>\<open>TypeError\<close>.\<close>

definition alterJSON ::
  "'s io \<Rightarrow> (string \<Rightarrow> error + 'j) \<Rightarrow> ('j \<Rightarrow> nat option \<Rightarrow> string) \<Rightarrow> ('j \<Rightarrow> 'j) \<Rightarrow> nat option
     \<Rightarrow> Files \<Rightarrow> 's \<Rightarrow> (unit, 's) run" where
  "alterJSON fs JSON_parse JSON_stringify pHandler pSpaces this s =
     (let r = read fs this s
      in case outcome r of
           Throw e \<Rightarrow> \<lparr>outcome = Throw e, self = self r, world = world r\<rparr>
         | Return None \<Rightarrow> \<lparr>outcome = Throw TypeError, self = self r, world = world r\<rparr>
         | Return (Some content) \<Rightarrow>
             (case JSON_parse content of
                Inl e \<Rightarrow> \<lparr>outcome = Throw e, self = self r, world = world r\<rparr>
              | Inr json \<Rightarrow>
                  files_write fs (JSON_stringify (pHandler json) pSpaces) (self r) (world r)))"

section \<open>A reference file system\<close>

text \<open>
  One disk to run the methods on: a tree of directories and regular files, without
  symbolic links, owners or permissions. An entry is stored under its absolute path, a
  list of names from the root; the root itself is always a directory. Paths are resolved
  as the kernel reads them (an absolute path from the root, a relative one from the
  working directory; empty and \<open>.\<close> components skipped, \<open>..\<close> going one level up), and
  the calls behave as \<^verbatim>\<open>fs\<close> and \<^verbatim>\<open>fs-extra\<close> document them.
\<close>

datatype node = File string | Dir

record filesystem =
  cwd :: "string list"
  entries :: "(string list \<times> node) list"

definition entry :: "filesystem \<Rightarrow> string list \<Rightarrow> node option" where
  "entry s k = (if k = [] then Some Dir else map_of (entries s) k)"

fun walk :: "string list \<Rightarrow> string list \<Rightarrow> string list" where
  "walk at [] = at"
| "walk at (seg # segs) =
     (if seg = [] \<or> seg = ''.'' then walk at segs
      else if seg = ''..'' then walk (butlast at) segs
      else walk (at @ [seg]) segs)"

definition resolve :: "filesystem \<Rightarrow> string \<Rightarrow> string list" where
  "resolve s p = walk (if p \<noteq> [] \<and> hd p = slash then [] else cwd s) (segments p)"

text \<open>What \<^verbatim>\<open>stat\<close> finds at a path: nothing at the empty path, and nothing at a regular
  file named with a trailing separator.\<close>

definition locate :: "filesystem \<Rightarrow> string \<Rightarrow> node option" where
  "locate s p =
     (if p = [] then None
      else (case entry s (resolve s p) of
              Some (File content) \<Rightarrow> (if last p = slash then None else Some (File content))
            | other \<Rightarrow> other))"

definition posix_existsSync :: "filesystem \<Rightarrow> string \<Rightarrow> bool" where
  "posix_existsSync s p = (locate s p \<noteq> None)"

definition posix_readFileSync :: "filesystem \<Rightarrow> string \<Rightarrow> error + string" where
  "posix_readFileSync s p =
     (case locate s p of
        None \<Rightarrow> Inl ENOENT
      | Some Dir \<Rightarrow> Inl EISDIR
      | Some (File content) \<Rightarrow> Inr content)"

text \<open>Opening a path for writing, creating the file when it is missing: the key the
  content goes to, or the error.\<close>

definition open_for_write :: "filesystem \<Rightarrow> string \<Rightarrow> error + string list" where
  "open_for_write s p =
     (if p = [] then Inl ENOENT
      else
        let k = resolve s p
        in case entry s k of
             Some Dir \<Rightarrow> Inl EISDIR
           | Some (File _) \<Rightarrow> (if last p = slash then Inl ENOTDIR else Inr k)
           | None \<Rightarrow>
               (if last p = slash then Inl EISDIR
                else (case entry s (butlast k) of
                        None \<Rightarrow> Inl ENOENT
                      | Some (File _) \<Rightarrow> Inl ENOTDIR
                      | Some Dir \<Rightarrow> Inr k)))"

definition posix_writeFileSync :: "filesystem \<Rightarrow> string \<Rightarrow> string \<Rightarrow> error option \<times> filesystem" where
  "posix_writeFileSync s p content =
     (case open_for_write s p of
        Inl e \<Rightarrow> (Some e, s)
      | Inr k \<Rightarrow> (None, s\<lparr>entries := AList.update k (File content) (entries s)\<rparr>))"

definition posix_appendFileSync :: "filesystem \<Rightarrow> string \<Rightarrow> string \<Rightarrow> error option \<times> filesystem" where
  "posix_appendFileSync s p content =
     (case open_for_write s p of
        Inl e \<Rightarrow> (Some e, s)
      | Inr k \<Rightarrow>
          (let old = (case entry s k of Some (File c) \<Rightarrow> c | _ \<Rightarrow> [])
           in (None, s\<lparr>entries := AList.update k (File (old @ content)) (entries s)\<rparr>)))"

text \<open>\<^verbatim>\<open>mkdir -p\<close>: every prefix of the path, from the root down, is left alone when it is a
  directory, created when it is missing, and an error when it is a regular file.\<close>

fun mkdirs :: "(string list \<times> node) list \<Rightarrow> string list \<Rightarrow> string list
    \<Rightarrow> error option \<times> (string list \<times> node) list" where
  "mkdirs es pre [] = (None, es)"
| "mkdirs es pre (seg # segs) =
     (let k = pre @ [seg]
      in case map_of es k of
           Some (File _) \<Rightarrow> (Some (if segs = [] then EEXIST else ENOTDIR), es)
         | Some Dir \<Rightarrow> mkdirs es k segs
         | None \<Rightarrow> mkdirs (AList.update k Dir es) k segs)"

definition posix_ensureDirSync :: "filesystem \<Rightarrow> string \<Rightarrow> error option \<times> filesystem" where
  "posix_ensureDirSync s p =
     (if p = [] then (Some ENOENT, s)
      else (case mkdirs (entries s) [] (resolve s p) of
              (r, es) \<Rightarrow> (r, s\<lparr>entries := es\<rparr>)))"

text \<open>\<^verbatim>\<open>fse.removeSync\<close> removes the entry and all below it, and accepts a missing path.\<close>

definition posix_removeSync :: "filesystem \<Rightarrow> string \<Rightarrow> error option \<times> filesystem" where
  "posix_removeSync s p =
     (if p = [] then (None, s)
      else
        let k = resolve s p
        in (None, s\<lparr>entries := filter (\<lambda>(q, n). \<not> prefix k q) (entries s)\<rparr>))"

text \<open>\<^verbatim>\<open>fse.moveSync\<close> without \<^verbatim>\<open>overwrite\<close>: the source must exist, the destination must
  not, and must not lie inside the source; the destination's parent directories are
  created; then the subtree is renamed.\<close>

definition posix_moveSync :: "filesystem \<Rightarrow> string \<Rightarrow> string \<Rightarrow> error option \<times> filesystem" where
  "posix_moveSync s src dest =
     (if src = [] \<or> dest = [] then (Some ENOENT, s)
      else
        let ks = resolve s src; kd = resolve s dest
        in if locate s src = None then (Some ENOENT, s)
           else if prefix ks kd then (Some EINVAL, s)
           else if entry s kd \<noteq> None then (Some EEXIST, s)
           else (case mkdirs (entries s) [] (butlast kd) of
                   (Some e, es) \<Rightarrow> (Some e, s\<lparr>entries := es\<rparr>)
                 | (None, es) \<Rightarrow>
                     (None, s\<lparr>entries :=
                        map (\<lambda>(q, n). if prefix ks q then (kd @ drop (length ks) q, n) else (q, n))
                          es\<rparr>)))"

text \<open>\<^verbatim>\<open>fse.copySync\<close> with its defaults: the source must exist and the destination must
  not be the source or lie inside it; the destination's parent directories are created;
  the subtree is copied over what is there, unless a directory would replace a regular
  file or a regular file a directory.\<close>

definition posix_copySync :: "filesystem \<Rightarrow> string \<Rightarrow> string \<Rightarrow> error option \<times> filesystem" where
  "posix_copySync s src dest =
     (if src = [] \<or> dest = [] then (Some ENOENT, s)
      else
        let ks = resolve s src; kd = resolve s dest
        in if locate s src = None then (Some ENOENT, s)
           else if prefix ks kd then (Some EINVAL, s)
           else (case mkdirs (entries s) [] (butlast kd) of
                   (Some e, es) \<Rightarrow> (Some e, s\<lparr>entries := es\<rparr>)
                 | (None, es) \<Rightarrow>
                     (let sub = map (\<lambda>(q, n). (drop (length ks) q, n))
                                  (filter (\<lambda>(q, n). prefix ks q) es);
                          s1 = s\<lparr>entries := es\<rparr>
                      in if list_ex (\<lambda>(r, n). case entry s1 (kd @ r) of
                                              None \<Rightarrow> False
                                            | Some m \<Rightarrow> (n = Dir) \<noteq> (m = Dir)) sub
                         then (Some EEXIST, s1)
                         else (None, s\<lparr>entries :=
                                 fold (\<lambda>(r, n). AList.update (kd @ r) n) sub es\<rparr>))))"

definition posix :: "filesystem io" where
  "posix =
     \<lparr>existsSync = posix_existsSync,
      readFileSync = posix_readFileSync,
      writeFileSync = posix_writeFileSync,
      appendFileSync = posix_appendFileSync,
      ensureDirSync = posix_ensureDirSync,
      removeSync = posix_removeSync,
      moveSync = posix_moveSync,
      copySync = posix_copySync\<rparr>"

text \<open>What \<^verbatim>\<open>ensureDirSync\<close> leaves behind: a directory at the path and at every
  ancestor of it.\<close>

definition is_directory :: "filesystem \<Rightarrow> string \<Rightarrow> bool" where
  "is_directory s p =
     (p \<noteq> [] \<and> list_all (\<lambda>k. entry s k = Some Dir) (prefixes (resolve s p)))"

section \<open>An example disk and an example instance\<close>

text \<open>The working directory \<^verbatim>\<open>/home\<close> holds a directory \<^verbatim>\<open>src\<close> with three text files;
  the instance is what \<^verbatim>\<open>Files.getFiles('src/*.txt')\<close> builds there.\<close>

definition example_disk :: filesystem where
  "example_disk =
     \<lparr>cwd = [''home''],
      entries =
        [([''home''], Dir),
         ([''home'', ''src''], Dir),
         ([''home'', ''src'', ''a.txt''], File ''A''),
         ([''home'', ''src'', ''b.txt''], File ''B''),
         ([''home'', ''src'', ''c.txt''], File ''C'')]\<rparr>"

definition example_files :: Files where
  "example_files =
     \<lparr>glob = ''src/*.txt'', files = [''src/a.txt'', ''src/b.txt'', ''src/c.txt'']\<rparr>"


definition example_note :: filesystem where
  "example_note =
     \<lparr>cwd = [''home''],
      entries = [([''home''], Dir), ([''home'', ''note''], File ''a'')]\<rparr>"

section \<open>Properties of the destination rule\<close>

lemma lastIndexOf_trailing:
  "lastIndexOf d c = int (length d) - 1 \<longleftrightarrow> d = [] \<or> last d = c"
proof (cases "d = []")
  case True
  then show ?thesis by (simp add: lastIndexOf_def)
next
  case False
  show ?thesis
  proof (cases "c \<in> set d")
    case True
    have "takeWhile (\<lambda>x. x \<noteq> c) (rev d) = [] \<longleftrightarrow> last d = c"
      using False by (simp add: takeWhile_eq_Nil_iff hd_rev)
    with True False show ?thesis by (simp add: lastIndexOf_def)
  next
    case notin: False
    with False have "last d \<noteq> c" using last_in_set by blast
    with notin False show ?thesis by (simp add: lastIndexOf_def)
  qed
qed

text \<open>The test of line 52 holds for a destination that ends with the separator, and for
  the empty destination, where both sides are \<open>-1\<close>.\<close>

lemma target_branches:
  "targetDirectoryWithTrailingSlash d src =
     (if d = [] \<or> last d = slash then path_join d (path_basename src) else d)"
  by (simp add: targetDirectoryWithTrailingSlash_def lastIndexOf_trailing)

lemma segments_no_slash: "slash \<notin> set b \<Longrightarrow> segments b = [b]"
  by (induction b) auto

lemma basename_no_slash: "slash \<notin> set (path_basename p)"
  unfolding path_basename_def using set_takeWhileD by fastforce

lemma normalize_name:
  assumes "b \<noteq> []" "slash \<notin> set b"
  shows "path_normalize b = b"
proof -
  from assms have h: "hd b \<noteq> slash" "last b \<noteq> slash"
    by (metis hd_in_set, metis last_in_set)
  show ?thesis
    using assms h by (auto simp: path_normalize_def segments_no_slash Let_def)
qed

lemma join_empty_name:
  "path_join [] (path_basename src) =
     (if path_basename src = [] then ''.'' else path_basename src)"
  by (simp add: path_join_def normalize_name basename_no_slash)

text \<open>
  Claim C1. The destination is joined with the base name of the source when it ends with
  a separator, and returned verbatim otherwise. This holds for every destination that is
  not empty, and the two examples of the specification evaluate as it says. The empty
  destination does not end with a separator, yet the function does not return it: it
  returns the base name of the source.
\<close>

theorem target_rule_and_empty_destination:
  "targetDirectoryWithTrailingSlash (c # d) src
     = (if last (c # d) = slash then path_join (c # d) (path_basename src) else c # d)
   \<and> targetDirectoryWithTrailingSlash ''dst/'' ''a/b/file.txt'' = ''dst/file.txt''
   \<and> targetDirectoryWithTrailingSlash ''dst/renamed.txt'' ''a/b/file.txt'' = ''dst/renamed.txt''
   \<and> targetDirectoryWithTrailingSlash [] ''a/b/file.txt'' = ''file.txt''
   \<and> targetDirectoryWithTrailingSlash [] ''a/b/file.txt'' \<noteq> []"
proof -
  have rule: "targetDirectoryWithTrailingSlash (c # d) src
     = (if last (c # d) = slash then path_join (c # d) (path_basename src) else c # d)"
    using target_branches [of "c # d" src] by simp
  have examples: "targetDirectoryWithTrailingSlash ''dst/'' ''a/b/file.txt'' = ''dst/file.txt''"
    "targetDirectoryWithTrailingSlash ''dst/renamed.txt'' ''a/b/file.txt'' = ''dst/renamed.txt''"
    "targetDirectoryWithTrailingSlash [] ''a/b/file.txt'' = ''file.txt''"
    by code_simp+
  from examples(3) have "targetDirectoryWithTrailingSlash [] ''a/b/file.txt'' \<noteq> []"
    by simp
  with rule examples show ?thesis by blast
qed

section \<open>Properties of the batch operations\<close>

lemma each_ok_fold:
  "each cb xs s = (None, s') \<Longrightarrow> s' = fold (\<lambda>x s. snd (cb x s)) xs s"
  by (induction xs arbitrary: s) (auto split: prod.splits option.splits)

lemma moveTo_loop_ok:
  "moveTo_loop fse d xs acc s = (None, newFiles, s') \<Longrightarrow>
     newFiles = acc @ map (targetDirectoryWithTrailingSlash d) xs"
proof (induction xs arbitrary: acc s)
  case Nil
  then show ?case by simp
next
  case (Cons x xs)
  from Cons.prems obtain s1 where
    rest: "moveTo_loop fse d xs (acc @ [targetDirectoryWithTrailingSlash d x]) s1 = (None, newFiles, s')"
    by (auto simp: Let_def split: prod.splits option.splits)
  from Cons.IH [OF rest] show ?case by simp
qed

text \<open>
  Claim C2. A call of \<^verbatim>\<open>moveTo\<close> that returns gives the length the working set had
  before the call, and leaves as working set the destinations of the former entries,
  one for each and in the same order, each computed by
  \<^verbatim>\<open>targetDirectoryWithTrailingSlash\<close>; the pattern stays.
\<close>

theorem moveTo_count_and_paths:
  assumes "outcome (moveTo fse pDestination this s) = Return n"
  shows "n = length (files this)
    \<and> files (self (moveTo fse pDestination this s))
        = map (targetDirectoryWithTrailingSlash pDestination) (files this)
    \<and> length (files (self (moveTo fse pDestination this s))) = length (files this)
    \<and> glob (self (moveTo fse pDestination this s)) = glob this"
proof -
  obtain r newFiles s' where
    loop: "moveTo_loop fse pDestination (files this) [] s = (r, newFiles, s')"
    by (metis prod_cases3)
  with assms have none: "r = None"
    by (cases r) (simp_all add: moveTo_def)
  with loop have "newFiles = map (targetDirectoryWithTrailingSlash pDestination) (files this)"
    using moveTo_loop_ok by fastforce
  with loop none assms show ?thesis
    by (simp add: moveTo_def Let_def)
qed

text \<open>The three files of the example move into \<^verbatim>\<open>dst/\<close>.\<close>

theorem moveTo_witness:
  "outcome (moveTo posix ''dst/'' example_files example_disk) = Return 3
   \<and> files (self (moveTo posix ''dst/'' example_files example_disk))
       = [''dst/a.txt'', ''dst/b.txt'', ''dst/c.txt'']"
proof -
  have ret: "outcome (moveTo posix ''dst/'' example_files example_disk) = Return 3"
    by code_simp
  have "map (targetDirectoryWithTrailingSlash ''dst/'') (files example_files)
          = [''dst/a.txt'', ''dst/b.txt'', ''dst/c.txt'']"
    by code_simp
  with moveTo_count_and_paths [OF ret] ret show ?thesis by simp
qed

text \<open>
  Claim C3. A call of \<^verbatim>\<open>delete\<close> that returns gives the length the working set had,
  after removing its entries in stored order, and leaves the working set empty, so that
  \<^verbatim>\<open>exists\<close> is false; \<^verbatim>\<open>remove\<close> is the same call.
\<close>

theorem delete_count_and_clear:
  assumes "outcome (delete fse this s) = Return n"
  shows "n = length (files this)
    \<and> files (self (delete fse this s)) = []
    \<and> \<not> exists (self (delete fse this s))
    \<and> world (delete fse this s) = fold (\<lambda>file s. snd (removeSync fse s file)) (files this) s
    \<and> remove fse this s = delete fse this s"
proof -
  obtain r s' where loop: "each (\<lambda>file s. removeSync fse s file) (files this) s = (r, s')"
    by (cases "each (\<lambda>file s. removeSync fse s file) (files this) s")
  with assms have none: "r = None"
    by (cases r) (simp_all add: delete_def)
  from loop none have "s' = fold (\<lambda>file s. snd (removeSync fse s file)) (files this) s"
    using each_ok_fold by fastforce
  with loop none assms show ?thesis
    by (simp add: delete_def remove_def exists_def Let_def)
qed

text \<open>The example of the specification: three existing files.\<close>

theorem delete_witness:
  "list_all (posix_existsSync example_disk) (files example_files)
   \<and> outcome (delete posix example_files example_disk) = Return 3
   \<and> \<not> exists (self (delete posix example_files example_disk))"
proof -
  have ret: "outcome (delete posix example_files example_disk) = Return 3"
    by code_simp
  have "list_all (posix_existsSync example_disk) (files example_files)"
    by code_simp
  with delete_count_and_clear [OF ret] ret show ?thesis by simp
qed

text \<open>
  Claim C4. A call of \<^verbatim>\<open>copyTo\<close> that returns gives the length of the working set,
  has copied the entries in stored order, each to the destination that
  \<^verbatim>\<open>targetDirectoryWithTrailingSlash\<close> computes for it, and leaves the instance as it was.
\<close>

theorem copyTo_count_and_order:
  assumes "outcome (copyTo fse pDestination this s) = Return n"
  shows "n = length (files this)
    \<and> self (copyTo fse pDestination this s) = this
    \<and> world (copyTo fse pDestination this s)
        = fold (\<lambda>file s. snd (copySync fse s file
                  (targetDirectoryWithTrailingSlash pDestination file)))
            (files this) s"
proof -
  let ?cb = "\<lambda>file s. copySync fse s file (targetDirectoryWithTrailingSlash pDestination file)"
  obtain r s' where loop: "each ?cb (files this) s = (r, s')"
    by (cases "each ?cb (files this) s")
  with assms have none: "r = None"
    by (cases r) (simp_all add: copyTo_def)
  from loop none have "s' = fold (\<lambda>file s. snd (?cb file s)) (files this) s"
    using each_ok_fold by fastforce
  with loop none assms show ?thesis
    by (simp add: copyTo_def)
qed

text \<open>The three files of the example are copied into \<^verbatim>\<open>dst/\<close>; the originals stay.\<close>

theorem copyTo_witness:
  "outcome (copyTo posix ''dst/'' example_files example_disk) = Return 3
   \<and> self (copyTo posix ''dst/'' example_files example_disk) = example_files
   \<and> posix_readFileSync (world (copyTo posix ''dst/'' example_files example_disk)) ''dst/b.txt''
       = Inr ''B''
   \<and> posix_readFileSync (world (copyTo posix ''dst/'' example_files example_disk)) ''src/b.txt''
       = Inr ''B''"
proof -
  have ret: "outcome (copyTo posix ''dst/'' example_files example_disk) = Return 3"
    by code_simp
  have "posix_readFileSync (world (copyTo posix ''dst/'' example_files example_disk)) ''dst/b.txt''
          = Inr ''B''"
    "posix_readFileSync (world (copyTo posix ''dst/'' example_files example_disk)) ''src/b.txt''
          = Inr ''B''"
    by code_simp+
  with copyTo_count_and_order [OF ret] ret show ?thesis by simp
qed

section \<open>Properties of the reference file system\<close>

lemma posix_calls [simp]:
  "existsSync posix = posix_existsSync"
  "readFileSync posix = posix_readFileSync"
  "writeFileSync posix = posix_writeFileSync"
  "appendFileSync posix = posix_appendFileSync"
  "ensureDirSync posix = posix_ensureDirSync"
  "removeSync posix = posix_removeSync"
  "moveSync posix = posix_moveSync"
  "copySync posix = posix_copySync"
  by (simp_all add: posix_def)

lemma resolve_entries [simp]: "resolve (s\<lparr>entries := es\<rparr>) p = resolve s p"
  by (simp add: resolve_def)

text \<open>\<open>mkdirs\<close> only ever turns a missing entry into a directory.\<close>

lemma mkdirs_changes:
  "mkdirs es pre segs = (r, es') \<Longrightarrow>
     map_of es' k = map_of es k \<or> (map_of es k = None \<and> map_of es' k = Some Dir)"
proof (induction segs arbitrary: es pre)
  case Nil
  then show ?case by simp
next
  case (Cons seg segs)
  show ?case
  proof (cases "map_of es (pre @ [seg])")
    case None
    with Cons.prems have "mkdirs (AList.update (pre @ [seg]) Dir es) (pre @ [seg]) segs = (r, es')"
      by (simp add: Let_def)
    from Cons.IH [OF this] None show ?thesis
      by (auto simp: update_conv' split: if_splits)
  next
    case (Some n)
    show ?thesis
    proof (cases n)
      case (File c)
      with Some Cons.prems show ?thesis by (simp add: Let_def)
    next
      case Dir
      with Some Cons.prems have "mkdirs es (pre @ [seg]) segs = (r, es')"
        by (simp add: Let_def)
      from Cons.IH [OF this] show ?thesis .
    qed
  qed
qed

text \<open>When \<open>mkdirs\<close> succeeds, every prefix it walked is a directory.\<close>

lemma mkdirs_ok_prefixes:
  "mkdirs es pre segs = (None, es') \<Longrightarrow> q \<in> set (prefixes segs) \<Longrightarrow> q \<noteq> [] \<Longrightarrow>
     map_of es' (pre @ q) = Some Dir"
proof (induction segs arbitrary: es pre q)
  case Nil
  then show ?case by simp
next
  case (Cons seg segs)
  let ?k = "pre @ [seg]"
  from Cons.prems(1) obtain es1 where
    step: "mkdirs es1 ?k segs = (None, es')" and here: "map_of es1 ?k = Some Dir"
    by (cases "map_of es ?k"; cases "the (map_of es ?k)")
       (auto simp: Let_def update_conv')
  from Cons.prems(2,3) obtain q' where q: "q = seg # q'" and q': "q' \<in> set (prefixes segs)"
    by auto
  show ?case
  proof (cases "q' = []")
    case True
    from mkdirs_changes [OF step, of ?k] here have "map_of es' ?k = Some Dir" by auto
    with True q show ?thesis by simp
  next
    case False
    from Cons.IH [OF step q' False] q show ?thesis by simp
  qed
qed

lemma ensureDir_ok:
  assumes "posix_ensureDirSync s p = (None, s1)"
  shows "p \<noteq> []" and "cwd s1 = cwd s" and "is_directory s1 p"
proof -
  from assms show p: "p \<noteq> []"
    by (auto simp: posix_ensureDirSync_def split: if_splits)
  with assms obtain es where
    mk: "mkdirs (entries s) [] (resolve s p) = (None, es)" and s1: "s1 = s\<lparr>entries := es\<rparr>"
    by (auto simp: posix_ensureDirSync_def split: prod.splits)
  from s1 show "cwd s1 = cwd s" by simp
  have "entry s1 q = Some Dir" if "q \<in> set (prefixes (resolve s p))" for q
  proof (cases "q = []")
    case True
    then show ?thesis by (simp add: entry_def)
  next
    case False
    with mkdirs_ok_prefixes [OF mk that] s1 show ?thesis by (simp add: entry_def)
  qed
  with p s1 show "is_directory s1 p"
    by (simp add: is_directory_def list_all_iff)
qed

lemma ensureDir_changes:
  assumes "posix_ensureDirSync s p = (r, s1)"
  shows "cwd s1 = cwd s"
    and "entry s1 k = entry s k \<or> (entry s k = None \<and> entry s1 k = Some Dir)"
proof -
  show "cwd s1 = cwd s"
    using assms by (auto simp: posix_ensureDirSync_def split: if_splits prod.splits)
  show "entry s1 k = entry s k \<or> (entry s k = None \<and> entry s1 k = Some Dir)"
  proof (cases "p = []")
    case True
    with assms show ?thesis by (simp add: posix_ensureDirSync_def)
  next
    case False
    with assms obtain es where
      mk: "mkdirs (entries s) [] (resolve s p) = (r, es)" and s1: "s1 = s\<lparr>entries := es\<rparr>"
      by (auto simp: posix_ensureDirSync_def split: prod.splits)
    from mkdirs_changes [OF mk, of k] s1 show ?thesis
      by (auto simp: entry_def)
  qed
qed

text \<open>Directories stay directories under a change that keeps the working directory
  and every directory entry.\<close>

lemma is_directory_kept:
  assumes "is_directory s1 p" and "cwd s2 = cwd s1"
    and "\<And>k. entry s1 k = Some Dir \<Longrightarrow> entry s2 k = Some Dir"
  shows "is_directory s2 p"
proof -
  from assms(2) have "resolve s2 p = resolve s1 p" by (simp add: resolve_def)
  with assms(1,3) show ?thesis by (auto simp: is_directory_def list_all_iff)
qed

lemma open_for_write_ok:
  assumes "open_for_write s p = Inr k"
  shows "p \<noteq> []" and "last p \<noteq> slash" and "k = resolve s p" and "entry s k \<noteq> Some Dir"
  using assms
  by (auto simp: open_for_write_def Let_def split: if_splits option.splits node.splits)

lemma entry_after_update:
  "k \<noteq> [] \<Longrightarrow>
     entry (s\<lparr>entries := AList.update k n (entries s)\<rparr>) q = (if q = k then Some n else entry s q)"
  by (auto simp: entry_def update_conv')

text \<open>Storing a file where no directory is keeps every directory.\<close>

lemma is_directory_after_store:
  assumes "is_directory s1 p" and "entry s1 k \<noteq> Some Dir"
  shows "is_directory (s1\<lparr>entries := AList.update k (File c) (entries s1)\<rparr>) p"
proof (rule is_directory_kept [OF assms(1)])
  show "cwd (s1\<lparr>entries := AList.update k (File c) (entries s1)\<rparr>) = cwd s1" by simp
next
  fix q
  assume q: "entry s1 q = Some Dir"
  from assms(2) have "k \<noteq> []" by (auto simp: entry_def)
  moreover from q assms(2) have "q \<noteq> k" by auto
  ultimately show "entry (s1\<lparr>entries := AList.update k (File c) (entries s1)\<rparr>) q = Some Dir"
    using q by (simp add: entry_after_update)
qed

section \<open>Properties of the content operations\<close>


lemma append_ok_steps:
  assumes "outcome (files_append fs c nl this s) = Return ()"
  obtains s1 s2 where "ensureDirSync fs s (path_dirname (glob this)) = (None, s1)"
    and "appendFileSync fs s1 (glob this)
           ((if \<not> existsSync fs s1 (glob this) \<or> \<not> nl then [] else [CHR 0x0A]) @ c) = (None, s2)"
    and "world (files_append fs c nl this s) = s2"
  using assms
  by (auto simp: files_append_def Let_def split: prod.splits option.splits)



text \<open>
  Claim C7. \<^verbatim>\<open>read\<close> returns \<^verbatim>\<open>null\<close> exactly when \<^verbatim>\<open>existsSync\<close> finds nothing at the
  pattern, and it does not throw then; when there is an entry it gives what
  \<^verbatim>\<open>readFileSync\<close> gives for the pattern. The working set has no part in the result and
  the disk is left as it was. On the reference file system: \<^verbatim>\<open>null\<close> exactly when
  nothing is at the pattern, and the content of the regular file that is there.
\<close>

theorem read_null_iff_missing:
  "(outcome (read fs this s) = Return None \<longleftrightarrow> \<not> existsSync fs s (glob this))
   \<and> (existsSync fs s (glob this) \<longrightarrow>
        outcome (read fs this s)
          = (case readFileSync fs s (glob this) of
               Inl e \<Rightarrow> Throw e
             | Inr content \<Rightarrow> Return (Some content)))
   \<and> (\<not> existsSync fs s (glob this) \<longrightarrow> outcome (read fs this s) \<noteq> Throw e)
   \<and> outcome (read fs (this\<lparr>files := ws\<rparr>) s) = outcome (read fs this s)
   \<and> world (read fs this s) = s
   \<and> (outcome (read posix this d) = Return None \<longleftrightarrow> locate d (glob this) = None)
   \<and> (locate d (glob this) = Some (File content) \<longrightarrow>
        outcome (read posix this d) = Return (Some content))"
  by (auto simp: read_def posix_existsSync_def posix_readFileSync_def
           split: sum.splits option.splits node.splits)

theorem read_witness:
  "\<not> posix_existsSync example_disk ''src/missing.txt''
   \<and> outcome (read posix (Files_new ''src/missing.txt'') example_disk) = Return None
   \<and> posix_existsSync example_disk ''src/a.txt''
   \<and> outcome (read posix \<lparr>glob = ''src/a.txt'', files = [''src/a.txt'']\<rparr> example_disk)
       = Return (Some ''A'')
   \<and> outcome (read posix (Files_new ''src/a.txt'') example_disk) = Return (Some ''A'')"
proof -
  have m: "\<not> posix_existsSync example_disk ''src/missing.txt''"
    and a: "posix_existsSync example_disk ''src/a.txt''"
    and c: "posix_readFileSync example_disk ''src/a.txt'' = Inr ''A''"
    by code_simp+
  have g: "glob (Files_new ''src/missing.txt'') = ''src/missing.txt''"
    "glob (Files_new ''src/a.txt'') = ''src/a.txt''"
    "(Files_new ''src/a.txt'')\<lparr>files := [''src/a.txt'']\<rparr> = \<lparr>glob = ''src/a.txt'', files = [''src/a.txt'']\<rparr>"
    by (simp_all add: Files_new_def)
  from read_null_iff_missing [of posix "Files_new ''src/missing.txt''" example_disk]
    read_null_iff_missing [of posix "Files_new ''src/a.txt''" example_disk _ "[''src/a.txt'']"]
    m a c g
  show ?thesis by simp
qed

text \<open>
  Claim C8. On the reference file system, after a call of \<^verbatim>\<open>append\<close> that returns, the
  file at the pattern holds what it held before (nothing when it was not there),
  followed by the content alone when the file was not there or the flag is false, and
  by a newline and the content otherwise; the parent directory of the pattern and all
  its ancestors exist. On any file system, \<^verbatim>\<open>append\<close> first calls \<^verbatim>\<open>ensureDirSync\<close> on
  the directory name of the pattern, then tests on the disk that call left whether the
  pattern exists, and appends the content, after a newline when it does and the flag is
  true.
\<close>

theorem append_content:
  assumes "outcome (files_append posix pContent pNewLine this s) = Return ()"
  shows "posix_readFileSync (world (files_append posix pContent pNewLine this s)) (glob this)
           = Inr ((case locate s (glob this) of Some (File old) \<Rightarrow> old | _ \<Rightarrow> [])
                  @ (if \<not> posix_existsSync s (glob this) \<or> \<not> pNewLine
                     then pContent else CHR 0x0A # pContent))
    \<and> is_directory (world (files_append posix pContent pNewLine this s))
         (path_dirname (glob this))
    \<and> world (files_append fs c nl that t)
        = (case ensureDirSync fs t (path_dirname (glob that)) of
             (Some e, t1) \<Rightarrow> t1
           | (None, t1) \<Rightarrow>
               snd (appendFileSync fs t1 (glob that)
                      (if existsSync fs t1 (glob that) \<and> nl then CHR 0x0A # c else c)))"
proof -
  let ?g = "glob this"
  let ?before = "\<lambda>s1. if \<not> posix_existsSync s1 ?g \<or> \<not> pNewLine then [] else [CHR 0x0A]"
  from assms obtain s1 s2 where
    dir: "posix_ensureDirSync s (path_dirname ?g) = (None, s1)" and
    ap: "posix_appendFileSync s1 ?g (?before s1 @ pContent) = (None, s2)" and
    w: "world (files_append posix pContent pNewLine this s) = s2"
    by (rule append_ok_steps) simp
  let ?old = "\<lambda>k. case entry s1 k of Some (File c) \<Rightarrow> c | _ \<Rightarrow> []"
  from ap obtain k where
    k: "open_for_write s1 ?g = Inr k" and
    s2: "s2 = s1\<lparr>entries := AList.update k (File (?old k @ ?before s1 @ pContent)) (entries s1)\<rparr>"
    by (auto simp: posix_appendFileSync_def Let_def split: sum.splits)
  note ok = open_for_write_ok [OF k]
  note d = ensureDir_ok [OF dir]
  from ok(4) have knil: "k \<noteq> []" by (auto simp: entry_def)
  have same_k: "resolve s ?g = k"
    using ok(3) d(2) by (simp add: resolve_def)
  have "entry s1 k = entry s k"
    using ensureDir_changes(2) [OF dir, of k] ok(4) by auto
  then have loc: "locate s1 ?g = locate s ?g"
    using same_k ok(3) by (simp add: locate_def)
  have loc_k: "locate s1 ?g = (case entry s1 k of Some Dir \<Rightarrow> Some Dir | other \<Rightarrow> other)"
    using ok(1,2,3) by (auto simp: locate_def split: option.splits node.splits)
  have rd: "posix_readFileSync s2 ?g = Inr (?old k @ ?before s1 @ pContent)"
    using ok(1,2,3) knil s2
    by (simp add: posix_readFileSync_def locate_def entry_after_update)
  have old: "?old k = (case locate s ?g of Some (File old) \<Rightarrow> old | _ \<Rightarrow> [])"
    using loc loc_k ok(4) by (auto split: option.splits node.splits)
  have before: "?before s1 = ?before s"
    using loc by (simp add: posix_existsSync_def)
  have dirs: "is_directory s2 (path_dirname ?g)"
    unfolding s2 using d(3) ok(4) by (rule is_directory_after_store)
  have "world (files_append fs c nl that t)
        = (case ensureDirSync fs t (path_dirname (glob that)) of
             (Some e, t1) \<Rightarrow> t1
           | (None, t1) \<Rightarrow>
               snd (appendFileSync fs t1 (glob that)
                      (if existsSync fs t1 (glob that) \<and> nl then CHR 0x0A # c else c)))"
    by (auto simp: files_append_def Let_def split: prod.splits option.splits)
  with dirs rd old before w show ?thesis by simp
qed

text \<open>The three examples of the specification: the file \<^verbatim>\<open>note\<close> holds \<^verbatim>\<open>a\<close>, and
  \<^verbatim>\<open>logs/new\<close> does not exist.\<close>

theorem append_witness:
  "outcome (files_append posix ''b'' True (Files_new ''note'') example_note) = Return ()
   \<and> posix_readFileSync (world (files_append posix ''b'' True (Files_new ''note'') example_note))
         ''note'' = Inr [CHR ''a'', CHR 0x0A, CHR ''b'']
   \<and> outcome (files_append posix ''b'' False (Files_new ''note'') example_note) = Return ()
   \<and> posix_readFileSync (world (files_append posix ''b'' False (Files_new ''note'') example_note))
         ''note'' = Inr ''ab''
   \<and> outcome (files_append posix ''b'' True (Files_new ''logs/new'') example_note) = Return ()
   \<and> posix_readFileSync (world (files_append posix ''b'' True (Files_new ''logs/new'') example_note))
         ''logs/new'' = Inr ''b''"
proof -
  have a: "outcome (files_append posix ''b'' True (Files_new ''note'') example_note) = Return ()"
    and b: "outcome (files_append posix ''b'' False (Files_new ''note'') example_note) = Return ()"
    and c: "outcome (files_append posix ''b'' True (Files_new ''logs/new'') example_note) = Return ()"
    by code_simp+
  have g: "glob (Files_new ''note'') = ''note''" "glob (Files_new ''logs/new'') = ''logs/new''"
    by (simp_all add: Files_new_def)
  have l: "locate example_note ''note'' = Some (File ''a'')"
    "locate example_note ''logs/new'' = None"
    by code_simp+
  from append_content [OF a, THEN conjunct1] append_content [OF b, THEN conjunct1]
    append_content [OF c, THEN conjunct1] a b c
  show ?thesis by (simp add: g l posix_existsSync_def)
qed

section \<open>Properties of the folder operations\<close>

lemma each_ensureDir_keeps:
  "each (\<lambda>file s. posix_ensureDirSync s file) xs s = (r, s') \<Longrightarrow>
     cwd s' = cwd s \<and> (entry s k = Some Dir \<longrightarrow> entry s' k = Some Dir)"
proof (induction xs arbitrary: s)
  case Nil
  then show ?case by simp
next
  case (Cons x xs)
  obtain r1 s1 where first: "posix_ensureDirSync s x = (r1, s1)"
    by (cases "posix_ensureDirSync s x")
  note ch = ensureDir_changes(1) [OF first] ensureDir_changes(2) [OF first, of k]
  show ?case
  proof (cases r1)
    case None
    with Cons.prems first have "each (\<lambda>file s. posix_ensureDirSync s file) xs s1 = (r, s')"
      by simp
    from Cons.IH [OF this] ch show ?thesis by auto
  next
    case (Some e)
    with Cons.prems first have "s' = s1" by simp
    with ch show ?thesis by auto
  qed
qed

lemma each_ensureDir_ok:
  "each (\<lambda>file s. posix_ensureDirSync s file) xs s = (None, s') \<Longrightarrow>
     list_all (is_directory s') xs"
proof (induction xs arbitrary: s)
  case Nil
  then show ?case by simp
next
  case (Cons x xs)
  from Cons.prems obtain s1 where
    first: "posix_ensureDirSync s x = (None, s1)" and
    rest: "each (\<lambda>file s. posix_ensureDirSync s file) xs s1 = (None, s')"
    by (auto split: prod.splits option.splits)
  have "is_directory s' x"
  proof (rule is_directory_kept [OF ensureDir_ok(3) [OF first]])
    show "cwd s' = cwd s1"
      using each_ensureDir_keeps [OF rest] by simp
  next
    fix k
    assume "entry s1 k = Some Dir"
    with each_ensureDir_keeps [OF rest, of k] show "entry s' k = Some Dir" by simp
  qed
  with Cons.IH [OF rest] show ?case by simp
qed

text \<open>
  Claim C9. \<^verbatim>\<open>createFolders\<close> passes the pattern to \<^verbatim>\<open>ensureDirSync\<close> when the working
  set is empty, and otherwise each entry of the working set, in stored order; the
  pattern then has no part in what the call does. \<^verbatim>\<open>ensureFolders\<close> is the same call. On
  the reference file system, after a call that returns, the pattern (for an empty
  working set) or every entry (otherwise) is a directory, and so are its ancestors.
\<close>

theorem createFolders_duality:
  "world (createFolders fse this s)
     = snd (if files this = [] then ensureDirSync fse s (glob this)
            else each (\<lambda>file s. ensureDirSync fse s file) (files this) s)
   \<and> (outcome (createFolders fse this s) = Return ()
        \<longleftrightarrow> fst (if files this = [] then ensureDirSync fse s (glob this)
                 else each (\<lambda>file s. ensureDirSync fse s file) (files this) s) = None)
   \<and> (files this \<noteq> [] \<longrightarrow>
        outcome (createFolders fse (this\<lparr>glob := g\<rparr>) s) = outcome (createFolders fse this s)
        \<and> world (createFolders fse (this\<lparr>glob := g\<rparr>) s) = world (createFolders fse this s))
   \<and> ensureFolders fse this s = createFolders fse this s
   \<and> (outcome (createFolders posix this d) = Return () \<longrightarrow>
        (if files this = []
         then is_directory (world (createFolders posix this d)) (glob this)
         else list_all (is_directory (world (createFolders posix this d))) (files this)))"
proof -
  let ?run = "\<lambda>fse this s.
     if files this = [] then ensureDirSync fse s (glob this)
     else each (\<lambda>file s. ensureDirSync fse s file) (files this) s"
  have shape: "createFolders fse this s =
      (case ?run fse this s of
         (Some e, s') \<Rightarrow> \<lparr>outcome = Throw e, self = this, world = s'\<rparr>
       | (None, s') \<Rightarrow> \<lparr>outcome = Return (), self = this, world = s'\<rparr>)"
    for fse :: "'b io" and this s
    by (simp add: createFolders_def)
  have a: "world (createFolders fse this s) = snd (?run fse this s)"
    unfolding shape by (simp split: prod.splits option.splits)
  have b: "outcome (createFolders fse this s) = Return () \<longleftrightarrow> fst (?run fse this s) = None"
    unfolding shape by (simp split: prod.splits option.splits)
  have c: "outcome (createFolders fse (this\<lparr>glob := g\<rparr>) s) = outcome (createFolders fse this s)
        \<and> world (createFolders fse (this\<lparr>glob := g\<rparr>) s) = world (createFolders fse this s)"
    if "files this \<noteq> []"
    using that by (simp add: createFolders_def split: prod.splits option.splits)
  have e: "if files this = []
         then is_directory (world (createFolders posix this d)) (glob this)
         else list_all (is_directory (world (createFolders posix this d))) (files this)"
    if ret: "outcome (createFolders posix this d) = Return ()"
  proof (cases "files this = []")
    case True
    with ret obtain s' where "posix_ensureDirSync d (glob this) = (None, s')"
      and "world (createFolders posix this d) = s'"
      by (auto simp: createFolders_def split: prod.splits option.splits)
    with ensureDir_ok(3) True show ?thesis by simp
  next
    case False
    with ret obtain s' where "each (\<lambda>file s. posix_ensureDirSync s file) (files this) d = (None, s')"
      and "world (createFolders posix this d) = s'"
      by (auto simp: createFolders_def split: prod.splits option.splits)
    with each_ensureDir_ok False show ?thesis by simp
  qed
  from a b c e show ?thesis by (simp add: ensureFolders_def)
qed

text \<open>A new directory named by the pattern; and an instance whose working set is the
  directory \<^verbatim>\<open>src\<close>, where nothing is created at the pattern \<^verbatim>\<open>s*\<close>.\<close>

theorem createFolders_witness:
  "outcome (createFolders posix (Files_new ''x/y/z'') example_disk) = Return ()
   \<and> is_directory (world (createFolders posix (Files_new ''x/y/z'') example_disk)) ''x/y/z''
   \<and> outcome (createFolders posix \<lparr>glob = ''s*'', files = [''src'']\<rparr> example_disk) = Return ()
   \<and> is_directory (world (createFolders posix \<lparr>glob = ''s*'', files = [''src'']\<rparr> example_disk)) ''src''
   \<and> \<not> posix_existsSync (world (createFolders posix \<lparr>glob = ''s*'', files = [''src'']\<rparr> example_disk)) ''s*''"
proof -
  have a: "outcome (createFolders posix (Files_new ''x/y/z'') example_disk) = Return ()"
    and b: "outcome (createFolders posix \<lparr>glob = ''s*'', files = [''src'']\<rparr> example_disk) = Return ()"
    and c: "\<not> posix_existsSync (world (createFolders posix \<lparr>glob = ''s*'', files = [''src'']\<rparr> example_disk)) ''s*''"
    by code_simp+
  note last = conjunct2 [OF conjunct2 [OF conjunct2 [OF conjunct2]]]
  note x = mp [OF last [OF createFolders_duality
                  [of posix "Files_new ''x/y/z''" example_disk "[]" example_disk]] a]
  note y = mp [OF last [OF createFolders_duality
                  [of posix "\<lparr>glob = ''s*'', files = [''src'']\<rparr>" example_disk "[]" example_disk]] b]
  have x': "is_directory (world (createFolders posix (Files_new ''x/y/z'') example_disk)) ''x/y/z''"
    using x by (simp add: Files_new_def)
  have y': "is_directory (world (createFolders posix \<lparr>glob = ''s*'', files = [''src'']\<rparr> example_disk)) ''src''"
    using y by simp
  from x' y' a b c show ?thesis by blast
qed

section \<open>Which operations change the instance\<close>

text \<open>
  Claim C5. \<^verbatim>\<open>copyTo\<close>, \<^verbatim>\<open>read\<close>, \<^verbatim>\<open>write\<close>, \<^verbatim>\<open>append\<close>, \<^verbatim>\<open>alter\<close>, \<^verbatim>\<open>alterJSON\<close>,
  \<^verbatim>\<open>createFolders\<close> and \<^verbatim>\<open>ensureFolders\<close> leave the pattern and the working set as they
  were, whether they return or throw (\<^verbatim>\<open>exists\<close> is a function of the instance alone);
  so a second \<^verbatim>\<open>copyTo\<close> finds the working set of the first. \<^verbatim>\<open>delete\<close> and \<^verbatim>\<open>moveTo\<close>
  keep the pattern; when they return, the first has emptied the working set and the
  second has replaced it, and when they throw they have left it as it was.
\<close>

theorem only_delete_and_moveTo_change_files:
  "self (copyTo fs pDestination this s) = this
   \<and> self (read fs this s) = this
   \<and> self (files_write fs pContent this s) = this
   \<and> self (files_append fs pContent pNewLine this s) = this
   \<and> self (alter fs pHandler this s) = this
   \<and> self (alterJSON fs JSON_parse JSON_stringify jHandler pSpaces this s) = this
   \<and> self (createFolders fs this s) = this
   \<and> self (ensureFolders fs this s) = this
   \<and> files (self (copyTo fs pDestination (self (copyTo fs pDestination this s))
                     (world (copyTo fs pDestination this s))))
       = files (self (copyTo fs pDestination this s))
   \<and> glob (self (delete fs this s)) = glob this
   \<and> files (self (delete fs this s))
       = (case outcome (delete fs this s) of Return n \<Rightarrow> [] | Throw e \<Rightarrow> files this)
   \<and> self (remove fs this s) = self (delete fs this s)
   \<and> glob (self (moveTo fs pDestination this s)) = glob this
   \<and> files (self (moveTo fs pDestination this s))
       = (case outcome (moveTo fs pDestination this s) of
            Return n \<Rightarrow> map (targetDirectoryWithTrailingSlash pDestination) (files this)
          | Throw e \<Rightarrow> files this)"
proof -
  have copy: "self (copyTo fs pDestination this s) = this" for this s
    by (simp add: copyTo_def split: prod.splits option.splits)
  have rd: "self (read fs this s) = this"
    by (simp add: read_def split: sum.splits)
  have wr: "self (files_write fs c this s) = this" for c s
    by (simp add: files_write_def split: prod.splits option.splits)
  have ap: "self (files_append fs pContent pNewLine this s) = this"
    by (simp add: files_append_def Let_def split: prod.splits option.splits)
  have al: "self (alter fs pHandler this s) = this"
    by (simp add: alter_def Let_def rd wr split: completion.splits)
  have aj: "self (alterJSON fs JSON_parse JSON_stringify jHandler pSpaces this s) = this"
    by (simp add: alterJSON_def Let_def rd wr split: completion.splits option.splits sum.splits)
  have cf: "self (createFolders fs this s) = this"
    by (simp add: createFolders_def split: prod.splits option.splits)
  have del: "glob (self (delete fs this s)) = glob this
    \<and> files (self (delete fs this s))
        = (case outcome (delete fs this s) of Return n \<Rightarrow> [] | Throw e \<Rightarrow> files this)"
    by (simp add: delete_def Let_def split: prod.splits option.splits)
  have mv: "glob (self (moveTo fs pDestination this s)) = glob this
    \<and> files (self (moveTo fs pDestination this s))
        = (case outcome (moveTo fs pDestination this s) of
             Return n \<Rightarrow> map (targetDirectoryWithTrailingSlash pDestination) (files this)
           | Throw e \<Rightarrow> files this)"
  proof -
    obtain r newFiles s' where
      loop: "moveTo_loop fs pDestination (files this) [] s = (r, newFiles, s')"
      by (metis prod_cases3)
    show ?thesis
    proof (cases r)
      case None
      with loop moveTo_loop_ok [of fs pDestination "files this" "[]" s newFiles s']
      show ?thesis by (simp add: moveTo_def Let_def)
    next
      case (Some e)
      with loop show ?thesis by (simp add: moveTo_def)
    qed
  qed
  from copy rd wr ap al aj cf del mv show ?thesis
    by (simp add: ensureFolders_def remove_def)
qed

theorem unchanged_witness:
  "files (self (copyTo posix ''dst/'' example_files example_disk))
     = [''src/a.txt'', ''src/b.txt'', ''src/c.txt'']
   \<and> files (self (copyTo posix ''dst/'' (self (copyTo posix ''dst/'' example_files example_disk))
                     (world (copyTo posix ''dst/'' example_files example_disk))))
     = [''src/a.txt'', ''src/b.txt'', ''src/c.txt'']
   \<and> self (files_append posix ''x'' True example_files example_disk) = example_files
   \<and> outcome (delete posix example_files example_disk) = Return 3
   \<and> files (self (delete posix example_files example_disk)) = []"
proof -
  have d: "outcome (delete posix example_files example_disk) = Return 3"
    by code_simp
  have f: "files example_files = [''src/a.txt'', ''src/b.txt'', ''src/c.txt'']"
    by (simp add: example_files_def)
  note all = only_delete_and_moveTo_change_files
         [where fs = posix and this = example_files and s = example_disk
            and pDestination = "''dst/''" and pContent = "''x''" and pNewLine = True
            and pHandler = "\<lambda>c. []" and JSON_parse = Inr and JSON_stringify = "\<lambda>j n. j"
            and jHandler = "\<lambda>j. j" and pSpaces = None]
  from all have once: "self (copyTo posix ''dst/'' example_files example_disk) = example_files"
    by (rule conjunct1)
  from all have twice:
    "files (self (copyTo posix ''dst/'' (self (copyTo posix ''dst/'' example_files example_disk))
                    (world (copyTo posix ''dst/'' example_files example_disk))))
       = files (self (copyTo posix ''dst/'' example_files example_disk))"
    by blast
  from all have ap: "self (files_append posix ''x'' True example_files example_disk) = example_files"
    by blast
  from all have del: "files (self (delete posix example_files example_disk))
       = (case outcome (delete posix example_files example_disk) of
            Return n \<Rightarrow> [] | Throw e \<Rightarrow> files example_files)"
    by blast
  from del d have gone: "files (self (delete posix example_files example_disk)) = []"
    by simp
  from twice once f have again:
    "files (self (copyTo posix ''dst/'' (self (copyTo posix ''dst/'' example_files example_disk))
                    (world (copyTo posix ''dst/'' example_files example_disk))))
       = [''src/a.txt'', ''src/b.txt'', ''src/c.txt'']"
    by simp
  from once f have first:
    "files (self (copyTo posix ''dst/'' example_files example_disk))
       = [''src/a.txt'', ''src/b.txt'', ''src/c.txt'']"
    by simp
  from first again ap d gone show ?thesis by blast
qed

section \<open>The empty destination\<close>

text \<open>
  Claim C10. For the empty destination both sides of the test of line 52 are \<open>-1\<close>, so
  the function takes the directory branch and returns \<^verbatim>\<open>path.join\<close> of the empty string
  and the base name of the source: the base name when it is not empty, and \<^verbatim>\<open>.\<close> when
  it is (as for the source \<^verbatim>\<open>/\<close>). A \<^verbatim>\<open>moveTo\<close> and a \<^verbatim>\<open>copyTo\<close> with the empty
  destination that return have used these paths as targets.
\<close>

theorem empty_destination_takes_directory_branch:
  "lastIndexOf [] slash = - 1
   \<and> int (length ([] :: string)) - 1 = - 1
   \<and> targetDirectoryWithTrailingSlash [] src = path_join [] (path_basename src)
   \<and> targetDirectoryWithTrailingSlash [] src
       = (if path_basename src = [] then ''.'' else path_basename src)
   \<and> (outcome (moveTo fse [] this s) = Return n \<longrightarrow>
        files (self (moveTo fse [] this s))
          = map (\<lambda>src. if path_basename src = [] then ''.'' else path_basename src) (files this))
   \<and> (outcome (copyTo fse [] this s) = Return n \<longrightarrow>
        world (copyTo fse [] this s)
          = fold (\<lambda>file s. snd (copySync fse s file
                    (if path_basename file = [] then ''.'' else path_basename file)))
              (files this) s)"
proof -
  have t: "targetDirectoryWithTrailingSlash [] =
      (\<lambda>src. if path_basename src = [] then ''.'' else path_basename src)"
    by (rule ext) (simp add: target_branches join_empty_name)
  have mv: "files (self (moveTo fse [] this s)) = map (targetDirectoryWithTrailingSlash []) (files this)"
    if ret: "outcome (moveTo fse [] this s) = Return n"
  proof -
    obtain r newFiles s' where loop: "moveTo_loop fse [] (files this) [] s = (r, newFiles, s')"
      by (metis prod_cases3)
    with ret have none: "r = None"
      by (cases r) (simp_all add: moveTo_def)
    with loop moveTo_loop_ok [of fse "[]" "files this" "[]" s newFiles s']
    show ?thesis by (simp add: moveTo_def Let_def)
  qed
  have cp: "world (copyTo fse [] this s)
      = fold (\<lambda>file s. snd (copySync fse s file (targetDirectoryWithTrailingSlash [] file)))
          (files this) s"
    if ret: "outcome (copyTo fse [] this s) = Return n"
  proof -
    let ?cb = "\<lambda>file s. copySync fse s file (targetDirectoryWithTrailingSlash [] file)"
    obtain r s' where loop: "each ?cb (files this) s = (r, s')"
      by (cases "each ?cb (files this) s")
    with ret have none: "r = None"
      by (cases r) (simp_all add: copyTo_def)
    with loop each_ok_fold [of ?cb "files this" s s'] show ?thesis
      by (simp add: copyTo_def)
  qed
  have p1: "lastIndexOf [] slash = - 1"
    by (simp add: lastIndexOf_def)
  have p2: "int (length ([] :: string)) - 1 = - 1"
    by simp
  have p3: "targetDirectoryWithTrailingSlash [] src = path_join [] (path_basename src)"
    by (simp add: target_branches)
  have p4: "targetDirectoryWithTrailingSlash [] src
      = (if path_basename src = [] then ''.'' else path_basename src)"
    by (simp add: t)
  have p5: "outcome (moveTo fse [] this s) = Return n \<longrightarrow>
      files (self (moveTo fse [] this s))
        = map (\<lambda>src. if path_basename src = [] then ''.'' else path_basename src) (files this)"
    using mv by (simp add: t)
  have p6: "outcome (copyTo fse [] this s) = Return n \<longrightarrow>
      world (copyTo fse [] this s)
        = fold (\<lambda>file s. snd (copySync fse s file
                  (if path_basename file = [] then ''.'' else path_basename file)))
            (files this) s"
    using cp by (simp add: t)
  show ?thesis
    by (intro conjI p1 p2 p3 p4 p5 p6)
qed

text \<open>The three files of the example move to their bare names in the working
  directory.\<close>

theorem empty_destination_witness:
  "outcome (moveTo posix [] example_files example_disk) = Return 3
   \<and> files (self (moveTo posix [] example_files example_disk)) = [''a.txt'', ''b.txt'', ''c.txt'']
   \<and> outcome (copyTo posix [] example_files example_disk) = Return 3
   \<and> posix_readFileSync (world (copyTo posix [] example_files example_disk)) ''b.txt'' = Inr ''B''"
proof -
  have m: "outcome (moveTo posix [] example_files example_disk) = Return 3"
    and c: "outcome (copyTo posix [] example_files example_disk) = Return 3"
    and r: "posix_readFileSync (world (copyTo posix [] example_files example_disk)) ''b.txt'' = Inr ''B''"
    by code_simp+
  have b: "map (\<lambda>src. if path_basename src = [] then ''.'' else path_basename src) (files example_files)
             = [''a.txt'', ''b.txt'', ''c.txt'']"
    by code_simp
  from empty_destination_takes_directory_branch [of _ posix example_files example_disk 3] m c r b
  show ?thesis by simp
qed

text \<open>The source \<^verbatim>\<open>/\<close> has the empty base name, and the function returns \<^verbatim>\<open>.\<close> for it.\<close>

theorem empty_destination_root_source:
  "path_basename ''/'' = []
   \<and> targetDirectoryWithTrailingSlash [] ''/'' = ''.''
   \<and> targetDirectoryWithTrailingSlash [] ''/'' \<noteq> path_basename ''/''"
  by code_simp

end
